theory Spec2Isabelle
  imports Complex_Main "HOL-Library.Char_ord" "HOL-Library.List_Lexorder"
begin

section \<open>Data model\<close>

text \<open>
  The program is a report generator: the Python part cleans a ledger and embeds it,
  as JSON, into a page whose JavaScript does the grouping (\<open>build_main_table\<close>,
  \<open>show_subtype_detail\<close>) and the reimbursement computation
  (\<open>compute_reimbursements_and_render\<close>). The definitions below follow that
  JavaScript, leaving out the DOM rendering.

  Numbers. A JavaScript number is modelled as an exact rational: amounts are decimal
  strings parsed upstream, and \<open>+\<close>, \<open>-\<close>, \<open>*\<close>, \<open>/\<close>,
  \<open>Math.min\<close>, \<open>Math.max\<close> are the exact operations. Rounding and overflow
  of IEEE doubles are outside this model. On an exact number \<open>x || 0\<close> is \<open>x\<close>.

  Objects used as dictionaries are association lists in insertion order; a key is
  assumed not to be the name of an inherited property of \<open>Object.prototype\<close>.
  JavaScript enumerates integer-like keys before the others; this is not modelled, and
  no statement below depends on the order of enumeration.
\<close>

type_synonym num = rat

text \<open>One element of \<open>DATA.records\<close>, as \<open>compute_aggregates\<close> builds it.\<close>

record expense =
  spent_type :: string
  spent_subtype :: string
  spent_name :: string
  amount :: num
  member_id :: string
  is_bill :: string
  spent_id :: string

type_synonym 'v dict = "(string \<times> 'v) list"

text \<open>\<open>d[k] = v\<close>: an existing key keeps its place, a new key goes last.\<close>

fun dict_set :: "'v dict \<Rightarrow> string \<Rightarrow> 'v \<Rightarrow> 'v dict" where
  "dict_set [] k v = [(k, v)]"
| "dict_set ((k', v') # d) k v =
     (if k' = k then (k', v) # d else (k', v') # dict_set d k v)"

text \<open>\<open>d[k] || 0\<close> on a dictionary of numbers.\<close>

definition get0 :: "num dict \<Rightarrow> string \<Rightarrow> num" where
  "get0 d k = (case map_of d k of None \<Rightarrow> 0 | Some v \<Rightarrow> v)"

text \<open>\<open>Object.values(d)\<close>.\<close>

definition dict_values :: "'v dict \<Rightarrow> 'v list" where
  "dict_values d = map snd d"

text \<open>\<open>d[k] = (d[k] || 0) + a\<close>.\<close>

definition add_at :: "num dict \<Rightarrow> string \<Rightarrow> num \<Rightarrow> num dict" where
  "add_at d k a = dict_set d k (get0 d k + a)"

text \<open>\<open>MEMBERS.forEach(m => d[m] = f(m))\<close>.\<close>

definition assign_each :: "(string \<Rightarrow> 'v) \<Rightarrow> string list \<Rightarrow> 'v dict \<Rightarrow> 'v dict" where
  "assign_each f ms d = fold (\<lambda>m d. dict_set d m (f m)) ms d"

section \<open>The reimbursement computation\<close>

text \<open>
  \<open>compute_reimbursements_and_render\<close> reads the globals \<open>MEMBERS\<close>,
  \<open>DATA.records\<close> and \<open>SUM_GAIN\<close>, the checked radio button (\<open>gran\<close>), the
  checked boxes (\<open>selected\<close>) and one number input per member; \<open>winput m\<close> is
  \<open>parseFloat(document.getElementById(id).value) || 0\<close> for member \<open>m\<close>.
\<close>

text \<open>The first loop over \<open>MEMBERS\<close>: \<open>weights[m] = v; wsum += v\<close>.\<close>

definition read_weights :: "string list \<Rightarrow> (string \<Rightarrow> num) \<Rightarrow> num dict \<times> num" where
  "read_weights MEMBERS winput =
     fold (\<lambda>m (w, wsum). (dict_set w m (winput m), wsum + winput m)) MEMBERS ([], 0)"

text \<open>
  \<open>if (wsum<=0) MEMBERS.forEach(m=> weights[m]=1.0/MEMBERS.length);
  else for (let k in weights) weights[k]=weights[k]/wsum;\<close>
\<close>

definition normalize_weights :: "string list \<Rightarrow> (string \<Rightarrow> num) \<Rightarrow> num dict" where
  "normalize_weights MEMBERS winput =
     (let (w, wsum) = read_weights MEMBERS winput in
      if wsum \<le> 0 then assign_each (\<lambda>m. 1 / of_nat (length MEMBERS)) MEMBERS w
      else map (\<lambda>(k, x). (k, x / wsum)) w)"

text \<open>
  \<open>key = (gran==='type') ? r.spent_type : (gran==='subtype' ? r.spent_subtype : r.spent_name)\<close>
  and \<open>isAnte[idx] = selected.has(key)\<close>.
\<close>

definition ante_key :: "string \<Rightarrow> expense \<Rightarrow> string" where
  "ante_key gran r =
     (if gran = ''type'' then spent_type r
      else if gran = ''subtype'' then spent_subtype r else spent_name r)"

definition isAnte :: "string \<Rightarrow> string set \<Rightarrow> expense list \<Rightarrow> bool list" where
  "isAnte gran selected records = map (\<lambda>r. ante_key gran r \<in> selected) records"

text \<open>The totals the second loop over the records accumulates.\<close>

record tally =
  total_ante :: num
  total_post :: num
  ante_totals_by_member :: "num dict"
  post_totals_by_member :: "num dict"
  ante_asso_by_member :: "num dict"
  ante_perso_by_member :: "num dict"
  post_asso_by_member :: "num dict"
  post_perso_by_member :: "num dict"

definition init_tally :: "string list \<Rightarrow> tally" where
  "init_tally MEMBERS =
     fold (\<lambda>m t. t\<lparr>ante_totals_by_member := dict_set (ante_totals_by_member t) m 0,
                    post_totals_by_member := dict_set (post_totals_by_member t) m 0,
                    ante_asso_by_member := dict_set (ante_asso_by_member t) m 0,
                    ante_perso_by_member := dict_set (ante_perso_by_member t) m 0,
                    post_asso_by_member := dict_set (post_asso_by_member t) m 0,
                    post_perso_by_member := dict_set (post_perso_by_member t) m 0\<rparr>)
       MEMBERS
       \<lparr>total_ante = 0, total_post = 0, ante_totals_by_member = [],
        post_totals_by_member = [], ante_asso_by_member = [], ante_perso_by_member = [],
        post_asso_by_member = [], post_perso_by_member = []\<rparr>"

text \<open>The body of the second loop, for the record \<open>r\<close> and its flag \<open>isAnte[idx]\<close>.\<close>

definition tally_record :: "expense \<times> bool \<Rightarrow> tally \<Rightarrow> tally" where
  "tally_record x t =
     (let r = fst x; m = member_id r; a = amount r in
      if snd x then
        (let t1 = t\<lparr>total_ante := total_ante t + a,
                     ante_totals_by_member := add_at (ante_totals_by_member t) m a\<rparr>
         in if spent_type r = ''asso''
            then t1\<lparr>ante_asso_by_member := add_at (ante_asso_by_member t1) m a\<rparr>
            else t1\<lparr>ante_perso_by_member := add_at (ante_perso_by_member t1) m a\<rparr>)
      else
        (let t1 = t\<lparr>total_post := total_post t + a,
                     post_totals_by_member := add_at (post_totals_by_member t) m a\<rparr>
         in if spent_type r = ''asso''
            then t1\<lparr>post_asso_by_member := add_at (post_asso_by_member t1) m a\<rparr>
            else t1\<lparr>post_perso_by_member := add_at (post_perso_by_member t1) m a\<rparr>))"

definition tally_records :: "string list \<Rightarrow> string \<Rightarrow> string set \<Rightarrow> expense list \<Rightarrow> tally" where
  "tally_records MEMBERS gran selected records =
     fold tally_record (zip records (isAnte gran selected records)) (init_tally MEMBERS)"

text \<open>One entry of \<open>results\<close>.\<close>

record result =
  r_total_ante :: num
  r_total_post :: num
  r_total_ante_post :: num
  part_after_ante_split :: num
  final_after_post :: num

text \<open>The local variables of the function when it reaches the rendering.\<close>

record reimbursement =
  weights :: "num dict"
  tallies :: tally
  covered_ante :: num
  remaining_gain :: num
  total_ante_contrib :: num
  allocated_ante :: "num dict"
  part_after_ante :: "num dict"
  results :: "result dict"

definition compute_reimbursements ::
  "string list \<Rightarrow> expense list \<Rightarrow> num \<Rightarrow> string \<Rightarrow> string set \<Rightarrow> (string \<Rightarrow> num)
     \<Rightarrow> reimbursement" where
  "compute_reimbursements MEMBERS records SUM_GAIN gran selected winput =
     (let w = normalize_weights MEMBERS winput;
          t = tally_records MEMBERS gran selected records;
          covered = min SUM_GAIN (total_ante t);
          remaining = max (SUM_GAIN - covered) 0;
          contrib = foldl (+) 0 (dict_values (ante_totals_by_member t));
          allocated0 = assign_each (\<lambda>m. 0) MEMBERS [];
          allocated =
            (if contrib > 0
             then assign_each
                    (\<lambda>m. covered * (get0 (ante_totals_by_member t) m / contrib))
                    MEMBERS allocated0
             else allocated0);
          part = assign_each (\<lambda>m. remaining * get0 w m) MEMBERS [];
          res = assign_each
                  (\<lambda>m. let totalAnte = get0 (ante_totals_by_member t) m;
                           totalPost = get0 (post_totals_by_member t) m;
                           totalAP = totalAnte + totalPost;
                           partAfter = get0 part m;
                           finalAfterPost = partAfter - totalPost
                       in \<lparr>r_total_ante = totalAnte, r_total_post = totalPost,
                           r_total_ante_post = totalAP,
                           part_after_ante_split = partAfter,
                           final_after_post = finalAfterPost\<rparr>)
                  MEMBERS []
      in \<lparr>weights = w, tallies = t, covered_ante = covered, remaining_gain = remaining,
          total_ante_contrib = contrib, allocated_ante = allocated,
          part_after_ante = part, results = res\<rparr>)"

section \<open>The reimbursement computation with checked divisions\<close>

text \<open>
  Division made explicit. In JavaScript \<open>a / b\<close> of two finite numbers is finite only
  when \<open>b\<close> is not zero: \<open>a / 0\<close> is \<open>Infinity\<close>, \<open>-Infinity\<close> or \<open>NaN\<close>.
  \<open>None\<close> stands for such a value.
\<close>

definition divide_checked :: "num \<Rightarrow> num \<Rightarrow> num option" where
  "divide_checked a b = (if b = 0 then None else Some (a / b))"

text \<open>\<open>MEMBERS.forEach(m => d[m] = f(m))\<close> where computing \<open>f(m)\<close> divides.\<close>

fun assign_each_checked ::
  "(string \<Rightarrow> 'v option) \<Rightarrow> string list \<Rightarrow> 'v dict \<Rightarrow> 'v dict option" where
  "assign_each_checked f [] d = Some d"
| "assign_each_checked f (m # ms) d =
     (case f m of None \<Rightarrow> None | Some v \<Rightarrow> assign_each_checked f ms (dict_set d m v))"

text \<open>\<open>for (let k in weights) weights[k] = weights[k] / wsum\<close>.\<close>

fun scale_checked :: "num dict \<Rightarrow> num \<Rightarrow> num dict option" where
  "scale_checked [] wsum = Some []"
| "scale_checked ((k, x) # d) wsum =
     (case divide_checked x wsum of
        None \<Rightarrow> None
      | Some y \<Rightarrow> (case scale_checked d wsum of
                     None \<Rightarrow> None
                   | Some d' \<Rightarrow> Some ((k, y) # d')))"

text \<open>
  The same function as \<open>compute_reimbursements\<close>, with each of its three divisions
  checked: the result is \<open>None\<close> as soon as one of them has a zero divisor.
\<close>

definition compute_reimbursements_checked ::
  "string list \<Rightarrow> expense list \<Rightarrow> num \<Rightarrow> string \<Rightarrow> string set \<Rightarrow> (string \<Rightarrow> num)
     \<Rightarrow> reimbursement option" where
  "compute_reimbursements_checked MEMBERS records SUM_GAIN gran selected winput =
     (let (w0, wsum) = read_weights MEMBERS winput in
      case (if wsum \<le> 0
            then assign_each_checked (\<lambda>m. divide_checked 1 (of_nat (length MEMBERS))) MEMBERS w0
            else scale_checked w0 wsum) of
        None \<Rightarrow> None
      | Some w \<Rightarrow>
         (let t = tally_records MEMBERS gran selected records;
              covered = min SUM_GAIN (total_ante t);
              remaining = max (SUM_GAIN - covered) 0;
              contrib = foldl (+) 0 (dict_values (ante_totals_by_member t));
              allocated0 = assign_each (\<lambda>m. 0) MEMBERS []
          in case (if contrib > 0
                   then assign_each_checked
                          (\<lambda>m. case divide_checked (get0 (ante_totals_by_member t) m) contrib of
                                  None \<Rightarrow> None | Some q \<Rightarrow> Some (covered * q))
                          MEMBERS allocated0
                   else Some allocated0) of
               None \<Rightarrow> None
             | Some allocated \<Rightarrow>
                (let part = assign_each (\<lambda>m. remaining * get0 w m) MEMBERS [];
                     res = assign_each
                        (\<lambda>m. let totalAnte = get0 (ante_totals_by_member t) m;
                                 totalPost = get0 (post_totals_by_member t) m;
                                 totalAP = totalAnte + totalPost;
                                 partAfter = get0 part m;
                                 finalAfterPost = partAfter - totalPost
                             in \<lparr>r_total_ante = totalAnte, r_total_post = totalPost,
                                 r_total_ante_post = totalAP,
                                 part_after_ante_split = partAfter,
                                 final_after_post = finalAfterPost\<rparr>)
                        MEMBERS []
                 in Some \<lparr>weights = w, tallies = t, covered_ante = covered,
                          remaining_gain = remaining, total_ante_contrib = contrib,
                          allocated_ante = allocated, part_after_ante = part,
                          results = res\<rparr>)))"

section \<open>The main table\<close>

text \<open>One entry \<open>byType[t][rowKey]\<close>: \<open>{totals, total, rowKey, spent_type}\<close>.\<close>

record row =
  totals :: "num dict"
  total :: num
  rowKey :: string
  row_spent_type :: string

text \<open>\<open>r.spent_subtype || '(no subtype)'\<close>.\<close>

definition row_key :: "expense \<Rightarrow> string" where
  "row_key r = (if spent_subtype r = [] then ''(no subtype)'' else spent_subtype r)"

text \<open>The body of the loop of \<open>build_main_table\<close> over \<open>DATA.records\<close>.\<close>

definition add_to_table :: "expense \<Rightarrow> row dict dict \<Rightarrow> row dict dict" where
  "add_to_table r byType =
     (let t = spent_type r;
          rowKey = row_key r;
          rows = (case map_of byType t of None \<Rightarrow> [] | Some d \<Rightarrow> d);
          cur = (case map_of rows rowKey of
                   None \<Rightarrow> \<lparr>totals = [], total = 0, rowKey = rowKey, row_spent_type = t\<rparr>
                 | Some c \<Rightarrow> c);
          m = member_id r
      in dict_set byType t
           (dict_set rows rowKey
              (cur\<lparr>totals := add_at (totals cur) m (amount r),
                    total := total cur + amount r\<rparr>)))"

text \<open>
  \<open>Array.prototype.sort(cmp)\<close>. ECMAScript fixes the result for a consistent
  comparator: the stable sorted permutation, which insertion from the right computes.
\<close>

fun insert_sorted :: "('a \<Rightarrow> 'a \<Rightarrow> num) \<Rightarrow> 'a \<Rightarrow> 'a list \<Rightarrow> 'a list" where
  "insert_sorted cmp x [] = [x]"
| "insert_sorted cmp x (y # ys) =
     (if cmp x y \<le> 0 then x # y # ys else y # insert_sorted cmp x ys)"

definition js_sort :: "('a \<Rightarrow> 'a \<Rightarrow> num) \<Rightarrow> 'a list \<Rightarrow> 'a list" where
  "js_sort cmp xs = foldr (insert_sorted cmp) xs []"

text \<open>
  The comparator of the categories. \<open>toLowerCase\<close> and \<open>localeCompare\<close> are the
  built-ins of the JavaScript engine, taken as parameters.
\<close>

definition compare_types ::
  "(string \<Rightarrow> string) \<Rightarrow> (string \<Rightarrow> string \<Rightarrow> num) \<Rightarrow> string \<Rightarrow> string \<Rightarrow> num" where
  "compare_types toLowerCase localeCompare a b =
     (if toLowerCase a = ''asso'' then - 1
      else if toLowerCase b = ''asso'' then 1
      else if toLowerCase a = ''perso'' then - 1
      else if toLowerCase b = ''perso'' then 1
      else localeCompare a b)"

text \<open>
  The table body as a list: for each category of \<open>order\<close>, its header and its rows
  (the subtotal and total lines are sums of what the rows show).
\<close>

definition build_main_table ::
  "(string \<Rightarrow> string) \<Rightarrow> (string \<Rightarrow> string \<Rightarrow> num) \<Rightarrow> expense list
     \<Rightarrow> (string \<times> row list) list" where
  "build_main_table toLowerCase localeCompare records =
     (let byType = fold add_to_table records [];
          order = js_sort (compare_types toLowerCase localeCompare) (map fst byType)
      in map (\<lambda>t. (t, js_sort (\<lambda>a b. total b - total a)
                         (dict_values (case map_of byType t of None \<Rightarrow> [] | Some d \<Rightarrow> d))))
           order)"

text \<open>\<open>byType[t][k]\<close>, when both keys are there.\<close>

definition cell :: "row dict dict \<Rightarrow> string \<Rightarrow> string \<Rightarrow> row option" where
  "cell byType t k = (case map_of byType t of None \<Rightarrow> None | Some d \<Rightarrow> map_of d k)"

section \<open>The detail of a subtype\<close>

text \<open>
  One entry \<open>rowsMap[name]\<close>: \<open>{name, totals, total, parts: {asso, perso}}\<close>.
\<close>

record detail_row =
  name :: string
  member_totals :: "num dict"
  grand_total :: num
  parts_asso :: num
  parts_perso :: num

text \<open>The body of the loop of \<open>show_subtype_detail\<close> over \<open>allRecs\<close>.\<close>

definition add_to_detail :: "expense \<Rightarrow> detail_row dict \<Rightarrow> detail_row dict" where
  "add_to_detail r rowsMap =
     (let nm = (if spent_name r = [] then ''(no name)'' else spent_name r);
          cur = (case map_of rowsMap nm of
                   None \<Rightarrow> \<lparr>name = nm, member_totals = [], grand_total = 0,
                            parts_asso = 0, parts_perso = 0\<rparr>
                 | Some c \<Rightarrow> c);
          cur1 = cur\<lparr>member_totals := add_at (member_totals cur) (member_id r) (amount r),
                     grand_total := grand_total cur + amount r\<rparr>;
          cur2 = (if spent_type r = ''asso''
                  then cur1\<lparr>parts_asso := parts_asso cur1 + amount r\<rparr>
                  else cur1\<lparr>parts_perso := parts_perso cur1 + amount r\<rparr>)
      in dict_set rowsMap nm cur2)"

text \<open>
  \<open>show_subtype_detail(spent_type, subtype)\<close>: the rows of the detail table. The
  first argument only appears in the title.
\<close>

definition show_subtype_detail :: "expense list \<Rightarrow> string \<Rightarrow> string \<Rightarrow> detail_row list" where
  "show_subtype_detail records clicked_type subtype =
     (let allRecs = filter (\<lambda>r. spent_subtype r = subtype) records;
          rowsMap = fold add_to_detail allRecs []
      in dict_values rowsMap)"

section \<open>Example inputs\<close>

definition refund_robes :: expense where
  "refund_robes = \<lparr>spent_type = ''perso'', spent_subtype = ''vetement'', spent_name = ''robes'',
     amount = - 49, member_id = ''Lucie'', is_bill = '''', spent_id = ''3''\<rparr>"

definition spent_A :: expense where
  "spent_A = \<lparr>spent_type = ''perso'', spent_subtype = '''', spent_name = '''',
     amount = 100, member_id = ''A'', is_bill = '''', spent_id = ''0''\<rparr>"

definition spent_B :: expense where
  "spent_B = \<lparr>spent_type = ''asso'', spent_subtype = '''', spent_name = '''',
     amount = 50, member_id = ''B'', is_bill = '''', spent_id = ''1''\<rparr>"

definition half_each :: "string \<Rightarrow> num" where
  "half_each m = 1 / 2"

definition all_to_one :: "string \<Rightarrow> num" where
  "all_to_one m = 1"

definition no_weight :: "string \<Rightarrow> num" where
  "no_weight m = 0"

text \<open>
  A concrete engine for the examples: lower-casing of the ASCII letters, and comparison
  of strings by their code units.
\<close>

definition ascii_lower :: "string \<Rightarrow> string" where
  "ascii_lower s =
     map (\<lambda>c. if CHR ''A'' \<le> c \<and> c \<le> CHR ''Z'' then char_of (of_char c + (32::nat)) else c) s"

definition code_unit_compare :: "string \<Rightarrow> string \<Rightarrow> num" where
  "code_unit_compare a b = (if a < b then - 1 else if a = b then 0 else 1)"

definition ledger :: "expense list" where
  "ledger =
     [\<lparr>spent_type = ''perso'', spent_subtype = ''instrument'', spent_name = ''archet'',
        amount = 85, member_id = ''Lucie'', is_bill = ''1'', spent_id = ''0''\<rparr>,
      \<lparr>spent_type = ''don'', spent_subtype = ''divers'', spent_name = ''tombola'',
        amount = 5, member_id = ''Lucie'', is_bill = ''1'', spent_id = ''1''\<rparr>,
      \<lparr>spent_type = ''perso'', spent_subtype = ''vetement'', spent_name = ''robe'',
        amount = 100, member_id = ''Lucie'', is_bill = ''1'', spent_id = ''2''\<rparr>,
      \<lparr>spent_type = ''cadeau'', spent_subtype = '''', spent_name = ''fleurs'',
        amount = 12, member_id = ''David'', is_bill = ''1'', spent_id = ''3''\<rparr>,
      \<lparr>spent_type = ''Asso'', spent_subtype = ''corep'', spent_name = ''flyer'',
        amount = 10, member_id = ''David'', is_bill = ''1'', spent_id = ''4''\<rparr>]"

definition tombola :: "expense list" where
  "tombola =
     [\<lparr>spent_type = ''asso'', spent_subtype = ''divers'', spent_name = ''tombola'',
        amount = 7, member_id = ''Helene'', is_bill = ''1'', spent_id = ''0''\<rparr>,
      \<lparr>spent_type = ''perso'', spent_subtype = ''divers'', spent_name = ''tombola'',
        amount = 3, member_id = ''Lucie'', is_bill = ''1'', spent_id = ''1''\<rparr>,
      \<lparr>spent_type = ''don'', spent_subtype = ''divers'', spent_name = ''tombola'',
        amount = 5, member_id = ''Lucie'', is_bill = ''1'', spent_id = ''2''\<rparr>]"

section \<open>Lemmas on dictionaries\<close>

lemma map_of_dict_set:
  "map_of (dict_set d k v) k' = (if k' = k then Some v else map_of d k')"
  by (induction d) auto

lemma get0_dict_set: "get0 (dict_set d k v) k' = (if k' = k then v else get0 d k')"
  by (simp add: get0_def map_of_dict_set)

lemma get0_add_at: "get0 (add_at d k a) k' = (if k' = k then get0 d k + a else get0 d k')"
  by (simp add: add_at_def get0_dict_set)

lemma sum_values_dict_set:
  "sum_list (map snd (dict_set d k v)) = sum_list (map snd d) - get0 d k + v"
  by (induction d) (auto simp: get0_def)

lemma sum_values_add_at:
  "sum_list (dict_values (add_at d k a)) = sum_list (dict_values d) + a"
  by (simp add: add_at_def dict_values_def sum_values_dict_set)

lemma map_of_assign_each:
  "map_of (assign_each f ms d) k = (if k \<in> set ms then Some (f k) else map_of d k)"
  unfolding assign_each_def
  by (induction ms arbitrary: d) (auto simp: map_of_dict_set)

lemma get0_assign_each:
  "get0 (assign_each f ms d) k = (if k \<in> set ms then f k else get0 d k)"
  by (simp add: get0_def map_of_assign_each)

lemma get0_Nil: "get0 [] k = 0"
  by (simp add: get0_def)

lemma zero_dict_assign:
  "(\<forall>k. get0 d k = 0) \<Longrightarrow> sum_list (dict_values d) = 0 \<Longrightarrow>
   (\<forall>k. get0 (assign_each (\<lambda>m. 0) ms d) k = 0) \<and>
   sum_list (dict_values (assign_each (\<lambda>m. 0) ms d)) = 0"
proof (induction ms arbitrary: d)
  case Nil
  then show ?case by (simp add: assign_each_def)
next
  case (Cons m ms)
  have step: "assign_each (\<lambda>m. 0::num) (m # ms) d = assign_each (\<lambda>m. 0) ms (dict_set d m 0)"
    by (simp add: assign_each_def)
  have a: "\<forall>k. get0 (dict_set d m 0) k = 0"
    using Cons.prems(1) by (simp add: get0_dict_set)
  have b: "sum_list (dict_values (dict_set d m 0)) = 0"
    using Cons.prems by (simp add: dict_values_def sum_values_dict_set)
  show ?case
    unfolding step by (rule Cons.IH [OF a b])
qed

section \<open>Lemmas on the reimbursement computation\<close>

lemma init_tally_fold:
  "total_ante (init_tally ms) = 0 \<and> total_post (init_tally ms) = 0 \<and>
   ante_totals_by_member (init_tally ms) = assign_each (\<lambda>m. 0) ms [] \<and>
   post_totals_by_member (init_tally ms) = assign_each (\<lambda>m. 0) ms []"
proof -
  let ?F = "\<lambda>m t. t\<lparr>ante_totals_by_member := dict_set (ante_totals_by_member t) m 0,
                    post_totals_by_member := dict_set (post_totals_by_member t) m 0,
                    ante_asso_by_member := dict_set (ante_asso_by_member t) m 0,
                    ante_perso_by_member := dict_set (ante_perso_by_member t) m 0,
                    post_asso_by_member := dict_set (post_asso_by_member t) m 0,
                    post_perso_by_member := dict_set (post_perso_by_member t) m (0::num)\<rparr>"
  have "total_ante (fold ?F ms t) = total_ante t \<and> total_post (fold ?F ms t) = total_post t \<and>
        ante_totals_by_member (fold ?F ms t) = assign_each (\<lambda>m. 0) ms (ante_totals_by_member t) \<and>
        post_totals_by_member (fold ?F ms t) = assign_each (\<lambda>m. 0) ms (post_totals_by_member t)"
    for t :: tally
    by (induction ms arbitrary: t) (simp_all add: assign_each_def)
  then show ?thesis
    by (simp add: init_tally_def)
qed

lemma tally_fold:
  fixes f :: "expense \<Rightarrow> bool"
  defines "t' \<equiv> \<lambda>rs t. fold tally_record (zip rs (map f rs)) t"
  shows "total_ante (t' rs t) = total_ante t + sum_list (map amount (filter f rs))"
    and "total_post (t' rs t) = total_post t + sum_list (map amount (filter (\<lambda>r. \<not> f r) rs))"
    and "get0 (ante_totals_by_member (t' rs t)) m =
         get0 (ante_totals_by_member t) m
         + sum_list (map amount (filter (\<lambda>r. f r \<and> member_id r = m) rs))"
    and "get0 (post_totals_by_member (t' rs t)) m =
         get0 (post_totals_by_member t) m
         + sum_list (map amount (filter (\<lambda>r. \<not> f r \<and> member_id r = m) rs))"
    and "sum_list (dict_values (ante_totals_by_member (t' rs t))) =
         sum_list (dict_values (ante_totals_by_member t)) + sum_list (map amount (filter f rs))"
    and "sum_list (dict_values (post_totals_by_member (t' rs t))) =
         sum_list (dict_values (post_totals_by_member t))
         + sum_list (map amount (filter (\<lambda>r. \<not> f r) rs))"
  unfolding t'_def
  by (induction rs arbitrary: t;
      simp add: tally_record_def Let_def get0_add_at sum_values_add_at)+

lemma init_tally_zero:
  "total_ante (init_tally ms) = 0" "total_post (init_tally ms) = 0"
  "get0 (ante_totals_by_member (init_tally ms)) k = 0"
  "get0 (post_totals_by_member (init_tally ms)) k = 0"
  "sum_list (dict_values (ante_totals_by_member (init_tally ms))) = 0"
  "sum_list (dict_values (post_totals_by_member (init_tally ms))) = 0"
  using zero_dict_assign [of "[]" ms]
  by (simp_all add: init_tally_fold get0_Nil dict_values_def)

lemma tally_records_fields:
  "total_ante (tally_records M g sel rs) =
     sum_list (map amount (filter (\<lambda>r. ante_key g r \<in> sel) rs))"
  "total_post (tally_records M g sel rs) =
     sum_list (map amount (filter (\<lambda>r. ante_key g r \<notin> sel) rs))"
  "get0 (ante_totals_by_member (tally_records M g sel rs)) m =
     sum_list (map amount (filter (\<lambda>r. ante_key g r \<in> sel \<and> member_id r = m) rs))"
  "get0 (post_totals_by_member (tally_records M g sel rs)) m =
     sum_list (map amount (filter (\<lambda>r. ante_key g r \<notin> sel \<and> member_id r = m) rs))"
  "sum_list (dict_values (ante_totals_by_member (tally_records M g sel rs))) =
     sum_list (map amount (filter (\<lambda>r. ante_key g r \<in> sel) rs))"
  "sum_list (dict_values (post_totals_by_member (tally_records M g sel rs))) =
     sum_list (map amount (filter (\<lambda>r. ante_key g r \<notin> sel) rs))"
  by (simp_all add: tally_records_def isAnte_def tally_fold init_tally_zero)

lemma sum_filter_split:
  fixes f :: "'a \<Rightarrow> num"
  shows "sum_list (map f (filter P xs)) + sum_list (map f (filter (\<lambda>x. \<not> P x) xs))
         = sum_list (map f xs)"
  by (induction xs) simp_all

lemma foldl_plus_sum_list:
  fixes a :: num
  shows "foldl (+) a xs = a + sum_list xs"
  by (induction xs arbitrary: a) simp_all

lemma reimbursement_fields:
  "weights (compute_reimbursements M rs G g sel w) = normalize_weights M w"
  "tallies (compute_reimbursements M rs G g sel w) = tally_records M g sel rs"
  "covered_ante (compute_reimbursements M rs G g sel w) =
     min G (total_ante (tally_records M g sel rs))"
  "remaining_gain (compute_reimbursements M rs G g sel w) =
     max (G - min G (total_ante (tally_records M g sel rs))) 0"
  "total_ante_contrib (compute_reimbursements M rs G g sel w) =
     sum_list (dict_values (ante_totals_by_member (tally_records M g sel rs)))"
  "part_after_ante (compute_reimbursements M rs G g sel w) =
     assign_each (\<lambda>m. max (G - min G (total_ante (tally_records M g sel rs))) 0
                        * get0 (normalize_weights M w) m) M []"
  by (simp_all add: compute_reimbursements_def Let_def foldl_plus_sum_list)

lemma results_lookup:
  assumes "m \<in> set M"
  shows "map_of (results (compute_reimbursements M rs G g sel w)) m =
    Some \<lparr>r_total_ante = get0 (ante_totals_by_member (tally_records M g sel rs)) m,
          r_total_post = get0 (post_totals_by_member (tally_records M g sel rs)) m,
          r_total_ante_post = get0 (ante_totals_by_member (tally_records M g sel rs)) m
                             + get0 (post_totals_by_member (tally_records M g sel rs)) m,
          part_after_ante_split =
            remaining_gain (compute_reimbursements M rs G g sel w)
            * get0 (normalize_weights M w) m,
          final_after_post =
            remaining_gain (compute_reimbursements M rs G g sel w)
            * get0 (normalize_weights M w) m
            - get0 (post_totals_by_member (tally_records M g sel rs)) m\<rparr>"
  using assms
  by (simp add: compute_reimbursements_def Let_def map_of_assign_each get0_assign_each)

lemmas example_defs = refund_robes_def spent_A_def spent_B_def half_each_def ante_key_def

lemma read_weights_eq:
  "read_weights M w = (assign_each w M [], sum_list (map w M))"
proof -
  have "fold (\<lambda>m (d, s). (dict_set d m (w m), s + w m)) ms (d0, s0)
        = (assign_each w ms d0, s0 + sum_list (map w ms))" for ms d0 and s0 :: num
    by (induction ms arbitrary: d0 s0) (simp_all add: assign_each_def add.assoc)
  then show ?thesis
    by (simp add: read_weights_def)
qed

lemma get0_scaled:
  "get0 (map (\<lambda>(k, x). (k, x / c)) d) m = get0 d m / c"
  by (induction d) (auto simp: get0_def)

lemma get0_normalize_weights:
  assumes "m \<in> set M"
  shows "get0 (normalize_weights M w) m =
           (if sum_list (map w M) \<le> 0 then 1 / of_nat (length M)
            else w m / sum_list (map w M))"
  using assms
  by (simp add: normalize_weights_def read_weights_eq get0_assign_each get0_scaled)

lemma allocated_lookup:
  assumes "m \<in> set M"
  shows "map_of (allocated_ante (compute_reimbursements M rs G g sel w)) m =
    Some (if total_ante_contrib (compute_reimbursements M rs G g sel w) > 0
          then covered_ante (compute_reimbursements M rs G g sel w)
               * (get0 (ante_totals_by_member (tally_records M g sel rs)) m
                  / total_ante_contrib (compute_reimbursements M rs G g sel w))
          else 0)"
  using assms
  by (simp add: compute_reimbursements_def Let_def map_of_assign_each)

lemma sum_list_scaled:
  fixes f :: "'a \<Rightarrow> num"
  shows "sum_list (map (\<lambda>x. f x / c) xs) = sum_list (map f xs) / c"
  by (induction xs) (simp_all add: add_divide_distrib)

section \<open>Lemmas on the checked divisions\<close>

lemma assign_each_checked_Some:
  "(\<And>m. m \<in> set ms \<Longrightarrow> g m = Some (f m)) \<Longrightarrow>
   assign_each_checked g ms d = Some (assign_each f ms d)"
  by (induction ms arbitrary: d) (simp_all add: assign_each_def)

lemma scale_checked_Some:
  "c \<noteq> 0 \<Longrightarrow> scale_checked d c = Some (map (\<lambda>(k, x). (k, x / c)) d)"
  by (induction d) (auto simp: divide_checked_def)

lemma uniform_checked:
  "assign_each_checked (\<lambda>m. divide_checked 1 (of_nat (length ms))) ms d
   = Some (assign_each (\<lambda>m. 1 / of_nat (length ms)) ms d)"
proof (rule assign_each_checked_Some)
  fix m assume "m \<in> set ms"
  then have "ms \<noteq> []" by auto
  then show "divide_checked 1 (of_nat (length ms)) = Some (1 / of_nat (length ms))"
    by (simp add: divide_checked_def)
qed

lemma allocate_checked:
  "c > 0 \<Longrightarrow>
   assign_each_checked
     (\<lambda>m. case divide_checked (get0 a m) c of None \<Rightarrow> None | Some q \<Rightarrow> Some (covered * q)) ms d
   = Some (assign_each (\<lambda>m. covered * (get0 a m / c)) ms d)"
  by (rule assign_each_checked_Some) (simp add: divide_checked_def)

section \<open>Lemmas on sorting and on the main table\<close>

lemma set_insert_sorted: "set (insert_sorted cmp x ys) = insert x (set ys)"
  by (induction ys) auto

lemma set_js_sort: "set (js_sort cmp xs) = set xs"
  by (induction xs) (simp_all add: js_sort_def set_insert_sorted)

lemma distinct_insert_sorted:
  "distinct (insert_sorted cmp x ys) = (x \<notin> set ys \<and> distinct ys)"
  by (induction ys) (auto simp: set_insert_sorted)

lemma distinct_js_sort: "distinct (js_sort cmp xs) = distinct xs"
  by (induction xs) (simp_all add: js_sort_def distinct_insert_sorted set_insert_sorted
      set_js_sort [unfolded js_sort_def])

lemma sorted_insert_sorted:
  assumes tot: "\<And>a b. le a b \<or> le b a"
    and tr: "\<And>a b c. le a b \<Longrightarrow> le b c \<Longrightarrow> le a c"
    and le: "\<And>a b. le a b = (cmp a b \<le> 0)"
  shows "sorted_wrt le ys \<Longrightarrow> sorted_wrt le (insert_sorted cmp x ys)"
proof (induction ys)
  case Nil
  then show ?case by simp
next
  case (Cons y ys)
  show ?case
  proof (cases "cmp x y \<le> 0")
    case True
    then have "le x y" by (simp add: le)
    then have "\<forall>z \<in> set ys. le x z"
      using Cons.prems tr by auto
    with True \<open>le x y\<close> Cons.prems show ?thesis by simp
  next
    case False
    then have "le y x" using tot [of x y] by (simp add: le)
    with False Cons show ?thesis
      by (auto simp: set_insert_sorted)
  qed
qed

lemma sorted_js_sort:
  assumes "\<And>a b. le a b \<or> le b a"
    and "\<And>a b c. le a b \<Longrightarrow> le b c \<Longrightarrow> le a c"
    and "\<And>a b. le a b = (cmp a b \<le> 0)"
  shows "sorted_wrt le (js_sort cmp xs)"
  unfolding js_sort_def
  by (induction xs) (simp_all add: sorted_insert_sorted [OF assms])

lemma map_fst_dict_set:
  "map fst (dict_set d k v) = (if k \<in> fst ` set d then map fst d else map fst d @ [k])"
  by (induction d) (auto simp: rev_image_eqI)

lemma distinct_dict_set: "distinct (map fst d) \<Longrightarrow> distinct (map fst (dict_set d k v))"
  by (simp add: map_fst_dict_set)

lemma set_keys_dict_set: "fst ` set (dict_set d k v) = insert k (fst ` set d)"
  using arg_cong [OF map_fst_dict_set [of d k v], of set] by auto

lemma keys_add_to_table:
  "fst ` set (add_to_table r b) = insert (spent_type r) (fst ` set b)"
  "distinct (map fst b) \<Longrightarrow> distinct (map fst (add_to_table r b))"
  by (simp_all add: add_to_table_def Let_def set_keys_dict_set distinct_dict_set)

lemma keys_fold_add_to_table:
  "fst ` set (fold add_to_table rs b) = fst ` set b \<union> spent_type ` set rs"
  "distinct (map fst b) \<Longrightarrow> distinct (map fst (fold add_to_table rs b))"
  by (induction rs arbitrary: b) (auto simp: keys_add_to_table)

lemma cell_add_to_table:
  "cell (add_to_table r b) t k =
     (if t = spent_type r \<and> k = row_key r
      then Some ((case cell b t k of
                    None \<Rightarrow> \<lparr>totals = [], total = 0, rowKey = k, row_spent_type = t\<rparr>
                  | Some c \<Rightarrow> c)
                 \<lparr>totals := add_at (totals (case cell b t k of
                    None \<Rightarrow> \<lparr>totals = [], total = 0, rowKey = k, row_spent_type = t\<rparr>
                  | Some c \<Rightarrow> c)) (member_id r) (amount r),
                  total := total (case cell b t k of
                    None \<Rightarrow> \<lparr>totals = [], total = 0, rowKey = k, row_spent_type = t\<rparr>
                  | Some c \<Rightarrow> c) + amount r\<rparr>)
      else cell b t k)"
  by (simp add: cell_def add_to_table_def Let_def map_of_dict_set split: option.splits)

lemma cell_fold:
  "(case cell (fold add_to_table rs []) t k of
      None \<Rightarrow> filter (\<lambda>r. spent_type r = t \<and> row_key r = k) rs = []
    | Some c \<Rightarrow> total c = sum_list (map amount
                   (filter (\<lambda>r. spent_type r = t \<and> row_key r = k) rs))
               \<and> rowKey c = k \<and> row_spent_type c = t)"
proof (induction rs rule: rev_induct)
  case Nil
  then show ?case by (simp add: cell_def)
next
  case (snoc r rs)
  show ?case
  proof (cases "spent_type r = t \<and> row_key r = k")
    case True
    then have tk: "spent_type r = t" "row_key r = k" by auto
    from snoc show ?thesis
      by (cases "cell (fold add_to_table rs []) t k") (simp_all add: cell_add_to_table tk)
  next
    case False
    then have c: "cell (fold add_to_table (rs @ [r]) []) t k = cell (fold add_to_table rs []) t k"
      by (auto simp: cell_add_to_table)
    from False have f: "filter (\<lambda>r. spent_type r = t \<and> row_key r = k) (rs @ [r])
                      = filter (\<lambda>r. spent_type r = t \<and> row_key r = k) rs"
      by auto
    show ?thesis
      unfolding c f by (rule snoc.IH)
  qed
qed

lemma map_of_add_to_table:
  "map_of (add_to_table r b) t =
     (if t = spent_type r
      then Some (dict_set (case map_of b t of None \<Rightarrow> [] | Some d \<Rightarrow> d) (row_key r)
             ((case cell b t (row_key r) of
                 None \<Rightarrow> \<lparr>totals = [], total = 0, rowKey = row_key r, row_spent_type = t\<rparr>
               | Some c \<Rightarrow> c)
              \<lparr>totals := add_at (totals (case cell b t (row_key r) of
                 None \<Rightarrow> \<lparr>totals = [], total = 0, rowKey = row_key r, row_spent_type = t\<rparr>
               | Some c \<Rightarrow> c)) (member_id r) (amount r),
               total := total (case cell b t (row_key r) of
                 None \<Rightarrow> \<lparr>totals = [], total = 0, rowKey = row_key r, row_spent_type = t\<rparr>
               | Some c \<Rightarrow> c) + amount r\<rparr>))
      else map_of b t)"
  by (simp add: cell_def add_to_table_def Let_def map_of_dict_set split: option.splits)

lemma inner_distinct:
  "map_of (fold add_to_table rs []) t = Some d \<Longrightarrow> distinct (map fst d)"
proof (induction rs arbitrary: d rule: rev_induct)
  case Nil
  then show ?case by simp
next
  case (snoc r rs)
  show ?case
  proof (cases "t = spent_type r")
    case False
    with snoc.prems have "map_of (fold add_to_table rs []) t = Some d"
      by (simp add: map_of_add_to_table)
    then show ?thesis by (rule snoc.IH)
  next
    case True
    have "distinct (map fst (case map_of (fold add_to_table rs []) t of
                               None \<Rightarrow> [] | Some d \<Rightarrow> d))"
      using snoc.IH by (cases "map_of (fold add_to_table rs []) t") simp_all
    moreover from snoc.prems True obtain v where
      "d = dict_set (case map_of (fold add_to_table rs []) t of
                       None \<Rightarrow> [] | Some d \<Rightarrow> d) (row_key r) v"
      by (auto simp add: map_of_add_to_table)
    ultimately show ?thesis
      by (simp add: distinct_dict_set)
  qed
qed

lemma table_row_total:
  assumes d: "map_of (fold add_to_table rs []) t = Some d" and c: "c \<in> set (dict_values d)"
  shows "total c = sum_list (map amount
           (filter (\<lambda>r. spent_type r = t \<and> row_key r = rowKey c) rs))"
proof -
  from c obtain k where "(k, c) \<in> set d"
    by (auto simp: dict_values_def)
  with inner_distinct [OF d] have "map_of d k = Some c"
    by simp
  with d have "cell (fold add_to_table rs []) t k = Some c"
    by (simp add: cell_def)
  with cell_fold [where rs = rs and t = t and k = k] show ?thesis
    by simp
qed

lemma sorted_wrt_split:
  fixes f :: "'a \<Rightarrow> nat"
  shows "sorted_wrt (\<lambda>a b. f a \<le> f b) xs \<Longrightarrow>
         xs = filter (\<lambda>x. f x < n) xs @ filter (\<lambda>x. \<not> f x < n) xs"
proof (induction xs)
  case Nil
  then show ?case by simp
next
  case (Cons x xs)
  show ?case
  proof (cases "f x < n")
    case True
    with Cons show ?thesis by simp
  next
    case False
    with Cons.prems have "\<forall>y \<in> set xs. \<not> f y < n" by auto
    then have "filter (\<lambda>x. f x < n) xs = []" "filter (\<lambda>x. \<not> f x < n) xs = xs"
      by (simp_all add: filter_empty_conv filter_id_conv)
    with False show ?thesis by simp
  qed
qed

lemma types_in_order:
  fixes toLowerCase :: "string \<Rightarrow> string" and localeCompare :: "string \<Rightarrow> string \<Rightarrow> num"
    and keys :: "string list"
  assumes tot: "\<And>a b. localeCompare a b \<le> 0 \<or> localeCompare b a \<le> 0"
    and tr: "\<And>a b c. localeCompare a b \<le> 0 \<Longrightarrow> localeCompare b c \<le> 0
                \<Longrightarrow> localeCompare a c \<le> 0"
  defines "order \<equiv> js_sort (compare_types toLowerCase localeCompare) keys"
  shows "\<exists>A P R. order = A @ P @ R
           \<and> (\<forall>t \<in> set A. toLowerCase t = ''asso'')
           \<and> (\<forall>t \<in> set P. toLowerCase t = ''perso'')
           \<and> (\<forall>t \<in> set R. toLowerCase t \<noteq> ''asso'' \<and> toLowerCase t \<noteq> ''perso'')
           \<and> sorted_wrt (\<lambda>a b. localeCompare a b \<le> 0) R"
proof -
  define rk :: "string \<Rightarrow> nat" where
    "rk t = (if toLowerCase t = ''asso'' then 0 else if toLowerCase t = ''perso'' then 1 else 2)"
    for t
  define le where "le a b = (compare_types toLowerCase localeCompare a b \<le> 0)" for a b
  have le_iff: "le a b = (rk a < rk b \<or> (rk a = rk b \<and> (rk a < 2 \<or> localeCompare a b \<le> 0)))"
    for a b
    by (simp add: le_def rk_def compare_types_def)
  have le_tot: "le a b \<or> le b a" for a b
    using tot [of a b] by (auto simp: le_iff)
  have le_tr: "le a b \<Longrightarrow> le b c \<Longrightarrow> le a c" for a b c
    using tr [of a b c] by (auto simp: le_iff)
  have sorted: "sorted_wrt le order"
    unfolding order_def by (rule sorted_js_sort [where le = le, OF le_tot le_tr le_def])
  then have ranked: "sorted_wrt (\<lambda>a b. rk a \<le> rk b) order"
    by (rule sorted_wrt_mono_rel [rotated]) (auto simp: le_iff)
  define A where "A = filter (\<lambda>t. rk t < 1) order"
  define rest where "rest = filter (\<lambda>t. \<not> rk t < 1) order"
  define P where "P = filter (\<lambda>t. rk t < 2) rest"
  define R where "R = filter (\<lambda>t. \<not> rk t < 2) rest"
  have "order = A @ rest"
    unfolding A_def rest_def by (rule sorted_wrt_split [OF ranked])
  moreover have "sorted_wrt (\<lambda>a b. rk a \<le> rk b) rest"
    unfolding rest_def by (rule sorted_wrt_filter [OF ranked])
  then have "rest = P @ R"
    unfolding P_def R_def by (rule sorted_wrt_split)
  ultimately have split: "order = A @ P @ R" by simp
  have a: "\<forall>t \<in> set A. toLowerCase t = ''asso''"
    by (auto simp: A_def rk_def split: if_splits)
  have p: "\<forall>t \<in> set P. toLowerCase t = ''perso''"
    by (auto simp: P_def rest_def rk_def split: if_splits)
  have r: "\<forall>t \<in> set R. toLowerCase t \<noteq> ''asso'' \<and> toLowerCase t \<noteq> ''perso''"
    by (auto simp: R_def rest_def rk_def split: if_splits)
  have "sorted_wrt le R"
    unfolding R_def rest_def by (intro sorted_wrt_filter sorted)
  then have "sorted_wrt (\<lambda>a b. localeCompare a b \<le> 0) R"
  proof (rule sorted_wrt_mono_rel [rotated])
    fix a b assume "a \<in> set R" "b \<in> set R" "le a b"
    moreover have "rk b \<le> 2" by (simp add: rk_def)
    ultimately show "localeCompare a b \<le> 0"
      by (auto simp: R_def rest_def le_iff)
  qed
  with split a p r show ?thesis by blast
qed

lemma rows_descending:
  "sorted_wrt (\<lambda>a b. total b \<le> total a) (js_sort (\<lambda>a b. total b - total a) rows)"
  by (rule sorted_js_sort) auto

lemma code_unit_compare_total:
  "code_unit_compare a b \<le> 0 \<or> code_unit_compare b a \<le> 0"
  by (auto simp: code_unit_compare_def)

lemma code_unit_compare_trans:
  "code_unit_compare a b \<le> 0 \<Longrightarrow> code_unit_compare b c \<le> 0 \<Longrightarrow> code_unit_compare a c \<le> 0"
  by (auto simp: code_unit_compare_def split: if_splits)

lemma ledger_table:
  "map (\<lambda>g. (fst g, map (\<lambda>c. (rowKey c, total c)) (snd g)))
     (build_main_table ascii_lower code_unit_compare ledger)
   = [(''Asso'', [(''corep'', 10)]),
      (''perso'', [(''vetement'', 100), (''instrument'', 85)]),
      (''cadeau'', [(''(no subtype)'', 12)]),
      (''don'', [(''divers'', 5)])]"
  by code_simp

section \<open>Claims on the reimbursement computation\<close>

text \<open>
  Claim C1 (as amended). For a non-negative gain, \<open>covered_ante\<close> is
  \<open>min(SUM_GAIN, total_ante)\<close>, where \<open>total_ante\<close> is the sum of the amounts of
  the selected records. When \<open>total_ante \<le> 0\<close> this minimum is \<open>total_ante\<close>
  itself: it is 0 when \<open>total_ante = 0\<close> and negative when \<open>total_ante\<close> is
  negative; the code has no clamp at zero.
\<close>

theorem covered_ante_min:
  fixes MEMBERS :: "string list" and records :: "expense list" and SUM_GAIN :: num
    and gran :: string and selected :: "string set" and winput :: "string \<Rightarrow> num"
  assumes "0 \<le> SUM_GAIN"
  defines "st \<equiv> compute_reimbursements MEMBERS records SUM_GAIN gran selected winput"
  shows "total_ante (tallies st) =
           sum_list (map amount (filter (\<lambda>r. ante_key gran r \<in> selected) records))
         \<and> covered_ante st = min SUM_GAIN (total_ante (tallies st))
         \<and> (total_ante (tallies st) \<le> 0 \<longrightarrow> covered_ante st = total_ante (tallies st))
         \<and> (total_ante (tallies st) = 0 \<longrightarrow> covered_ante st = 0)"
  using assms(1) unfolding st_def
  by (simp add: reimbursement_fields tally_records_fields)

theorem covered_ante_min_witness:
  "covered_ante (compute_reimbursements [''A'', ''B''] [spent_A, spent_B] 40 ''type'' {''asso''}
      half_each) = 40
   \<and> total_ante (tallies (compute_reimbursements [''A'', ''B''] [spent_A, spent_B] 40 ''type''
      {''cadeau''} half_each)) = 0
   \<and> covered_ante (compute_reimbursements [''A'', ''B''] [spent_A, spent_B] 40 ''type''
      {''cadeau''} half_each) = 0"
  using covered_ante_min [where SUM_GAIN = 40 and MEMBERS = "[''A'', ''B'']"
      and records = "[spent_A, spent_B]" and gran = "''type''" and selected = "{''asso''}"
      and winput = half_each]
    covered_ante_min [where SUM_GAIN = 40 and MEMBERS = "[''A'', ''B'']"
      and records = "[spent_A, spent_B]" and gran = "''type''" and selected = "{''cadeau''}"
      and winput = half_each]
  by (simp add: example_defs)

text \<open>
  Claim C1 as stated fails: with the single selected refund of -49 and a gain of 100,
  \<open>total_ante \<le> 0\<close> and \<open>covered_ante\<close> is -49, not 0.
\<close>

theorem covered_ante_negative:
  "total_ante (tallies (compute_reimbursements [''Lucie''] [refund_robes] 100 ''name'' {''robes''}
      half_each)) \<le> 0
   \<and> covered_ante (compute_reimbursements [''Lucie''] [refund_robes] 100 ''name'' {''robes''}
      half_each) = - 49"
  by (simp add: reimbursement_fields tally_records_fields example_defs)

text \<open>
  Claim C2. For every member \<open>m\<close> of \<open>MEMBERS\<close>, \<open>results[m]\<close> exists,
  its \<open>total_post\<close> is the sum of the amounts of the unselected (POST) records of
  \<open>m\<close>, its \<open>part_after_ante_split\<close> is \<open>remaining_gain * weights[m]\<close>, and
  \<open>final_after_post = part_after_ante_split - total_post\<close>: a plain difference,
  with no clamp. The witness is the concrete scenario of the specification, where the
  value is -100.
\<close>

theorem final_after_post_signed:
  fixes MEMBERS :: "string list" and records :: "expense list" and SUM_GAIN :: num
    and gran :: string and selected :: "string set" and winput :: "string \<Rightarrow> num"
  assumes "m \<in> set MEMBERS"
  defines "st \<equiv> compute_reimbursements MEMBERS records SUM_GAIN gran selected winput"
  defines "post_m \<equiv> sum_list (map amount
             (filter (\<lambda>r. ante_key gran r \<notin> selected \<and> member_id r = m) records))"
  shows "\<exists>r. map_of (results st) m = Some r
             \<and> r_total_post r = post_m
             \<and> part_after_ante_split r = remaining_gain st * get0 (weights st) m
             \<and> final_after_post r = part_after_ante_split r - post_m"
  using assms(1) unfolding st_def post_m_def
  by (simp add: results_lookup reimbursement_fields tally_records_fields)

theorem final_after_post_signed_witness:
  "map_of (results (compute_reimbursements [''A'', ''B''] [spent_A, spent_B] 40 ''type'' {''asso''}
      half_each)) ''A''
   = Some \<lparr>r_total_ante = 0, r_total_post = 100, r_total_ante_post = 100,
           part_after_ante_split = 0, final_after_post = - 100\<rparr>"
  using final_after_post_signed [where m = "''A''" and MEMBERS = "[''A'', ''B'']"
      and records = "[spent_A, spent_B]" and gran = "''type''" and selected = "{''asso''}"
      and SUM_GAIN = 40 and winput = half_each]
  by (simp add: results_lookup reimbursement_fields tally_records_fields example_defs)

text \<open>
  Claim C3 (as amended). With a gain of 0: when the selected amounts sum to at least 0,
  \<open>covered_ante = 0\<close>, \<open>remaining_gain = 0\<close>, and every member's
  \<open>part_after_ante_split\<close> is 0 and \<open>final_after_post\<close> is minus the member's
  POST total; when they sum to a negative number, \<open>covered_ante\<close> is that number
  and \<open>remaining_gain\<close> its opposite.
\<close>

theorem zero_gain:
  fixes MEMBERS :: "string list" and records :: "expense list"
    and gran :: string and selected :: "string set" and winput :: "string \<Rightarrow> num"
  defines "st \<equiv> compute_reimbursements MEMBERS records 0 gran selected winput"
  defines "ante \<equiv> sum_list (map amount (filter (\<lambda>r. ante_key gran r \<in> selected) records))"
  shows "(0 \<le> ante \<longrightarrow>
            covered_ante st = 0 \<and> remaining_gain st = 0
            \<and> (\<forall>m \<in> set MEMBERS. \<exists>r. map_of (results st) m = Some r
                  \<and> part_after_ante_split r = 0
                  \<and> final_after_post r = - sum_list (map amount
                       (filter (\<lambda>r. ante_key gran r \<notin> selected \<and> member_id r = m) records))))
         \<and> (ante < 0 \<longrightarrow> covered_ante st = ante \<and> remaining_gain st = - ante)"
  unfolding st_def ante_def
  by (simp add: results_lookup reimbursement_fields tally_records_fields)

theorem zero_gain_witness:
  "covered_ante (compute_reimbursements [''A'', ''B''] [spent_A, spent_B] 0 ''type'' {''asso''}
      half_each) = 0
   \<and> remaining_gain (compute_reimbursements [''A'', ''B''] [spent_A, spent_B] 0 ''type'' {''asso''}
      half_each) = 0
   \<and> map_of (results (compute_reimbursements [''A'', ''B''] [spent_A, spent_B] 0 ''type'' {''asso''}
      half_each)) ''A''
     = Some \<lparr>r_total_ante = 0, r_total_post = 100, r_total_ante_post = 100,
           part_after_ante_split = 0, final_after_post = - 100\<rparr>
   \<and> remaining_gain (compute_reimbursements [''Lucie'', ''Helene''] [refund_robes] 0 ''subtype''
      {''vetement''} half_each) = 49"
  using zero_gain [where MEMBERS = "[''A'', ''B'']" and records = "[spent_A, spent_B]"
      and gran = "''type''" and selected = "{''asso''}" and winput = half_each]
    zero_gain [where MEMBERS = "[''Lucie'', ''Helene'']" and records = "[refund_robes]"
      and gran = "''subtype''" and selected = "{''vetement''}" and winput = half_each]
  by (simp add: results_lookup reimbursement_fields tally_records_fields example_defs)

text \<open>
  Claim C3 as stated fails: with a gain of 0 and the single selected refund of -49,
  \<open>covered_ante = -49\<close>, \<open>remaining_gain = 49\<close>, and the only member gets
  \<open>part_after_ante_split = 49\<close> and \<open>final_after_post = 49\<close> (her POST total is 0).
\<close>

theorem zero_gain_negative_ante:
  "covered_ante (compute_reimbursements [''Lucie''] [refund_robes] 0 ''name'' {''robes''}
      all_to_one) = - 49
   \<and> remaining_gain (compute_reimbursements [''Lucie''] [refund_robes] 0 ''name'' {''robes''}
      all_to_one) = 49
   \<and> map_of (results (compute_reimbursements [''Lucie''] [refund_robes] 0 ''name'' {''robes''}
      all_to_one)) ''Lucie''
     = Some \<lparr>r_total_ante = - 49, r_total_post = 0, r_total_ante_post = - 49,
           part_after_ante_split = 49, final_after_post = 49\<rparr>"
  by (simp add: results_lookup reimbursement_fields tally_records_fields example_defs
      all_to_one_def get0_normalize_weights)

text \<open>
  Claim C4. For every record list, selection, weight input and non-negative gain,
  \<open>covered_ante + remaining_gain\<close> is the gain.
\<close>

theorem gain_conservation:
  fixes MEMBERS :: "string list" and records :: "expense list" and SUM_GAIN :: num
    and gran :: string and selected :: "string set" and winput :: "string \<Rightarrow> num"
  assumes "0 \<le> SUM_GAIN"
  defines "st \<equiv> compute_reimbursements MEMBERS records SUM_GAIN gran selected winput"
  shows "covered_ante st + remaining_gain st = SUM_GAIN"
  unfolding st_def by (simp add: reimbursement_fields)

theorem gain_conservation_witness:
  "covered_ante (compute_reimbursements [''Lucie''] [refund_robes] 100 ''name'' {''robes''} half_each)
   + remaining_gain (compute_reimbursements [''Lucie''] [refund_robes] 100 ''name'' {''robes''} half_each)
   = 100
   \<and> remaining_gain (compute_reimbursements [''Lucie''] [refund_robes] 100 ''name'' {''robes''} half_each)
   = 149"
  using gain_conservation [of 100 "[''Lucie'']" "[refund_robes]" "''name''" "{''robes''}" half_each]
  by (simp add: reimbursement_fields tally_records_fields example_defs)

text \<open>
  Claim C5. At any granularity, \<open>isAnte\<close> gives every record one boolean: the
  record is added to the ANTE totals when it is true and to the POST totals otherwise.
  So \<open>total_ante\<close> and \<open>total_post\<close> are the sums over the selected and the
  unselected records, and the values of \<open>ante_totals_by_member\<close> plus those of
  \<open>post_totals_by_member\<close> sum to the sum of all amounts (exactly, hence within
  1e-9). The two dictionaries have an entry for every \<open>r.member\<close>, the empty
  one included.
\<close>

theorem partition_totality:
  fixes MEMBERS :: "string list" and records :: "expense list" and SUM_GAIN :: num
    and gran :: string and selected :: "string set" and winput :: "string \<Rightarrow> num"
  defines "t \<equiv> tallies (compute_reimbursements MEMBERS records SUM_GAIN gran selected winput)"
  shows "length (isAnte gran selected records) = length records
       \<and> total_ante t = sum_list (map amount (filter (\<lambda>r. ante_key gran r \<in> selected) records))
       \<and> total_post t = sum_list (map amount (filter (\<lambda>r. ante_key gran r \<notin> selected) records))
       \<and> total_ante t + total_post t = sum_list (map amount records)
       \<and> sum_list (dict_values (ante_totals_by_member t))
           + sum_list (dict_values (post_totals_by_member t)) = sum_list (map amount records)
       \<and> \<bar>sum_list (dict_values (ante_totals_by_member t))
           + sum_list (dict_values (post_totals_by_member t)) - sum_list (map amount records)\<bar>
          \<le> 1 / 10 ^ 9"
  unfolding t_def
  by (simp add: reimbursement_fields tally_records_fields sum_filter_split isAnte_def)

text \<open>
  Claim C6. Run with checked divisions, the computation never meets a zero divisor: it
  returns the very result of \<open>compute_reimbursements\<close>, for every input. The
  divisors are \<open>MEMBERS.length\<close> (inside a loop over \<open>MEMBERS\<close>, so at least 1),
  \<open>wsum\<close> (under \<open>wsum > 0\<close>) and \<open>total_ante_contrib\<close> (under
  \<open>total_ante_contrib > 0\<close>). \<open>wsum\<close> is the sum of the supplied weights, and when
  it is at most 0 every member of \<open>MEMBERS\<close> gets the weight
  \<open>1 / MEMBERS.length\<close>.
\<close>

theorem divisions_guarded:
  fixes MEMBERS :: "string list" and records :: "expense list" and SUM_GAIN :: num
    and gran :: string and selected :: "string set" and winput :: "string \<Rightarrow> num"
  defines "st \<equiv> compute_reimbursements MEMBERS records SUM_GAIN gran selected winput"
  shows "compute_reimbursements_checked MEMBERS records SUM_GAIN gran selected winput = Some st
       \<and> snd (read_weights MEMBERS winput) = sum_list (map winput MEMBERS)
       \<and> (sum_list (map winput MEMBERS) \<le> 0 \<longrightarrow>
            (\<forall>m \<in> set MEMBERS. get0 (weights st) m = 1 / of_nat (length MEMBERS)))"
proof -
  have "compute_reimbursements_checked MEMBERS records SUM_GAIN gran selected winput = Some st"
    unfolding st_def compute_reimbursements_checked_def compute_reimbursements_def
      normalize_weights_def read_weights_eq
    by (simp add: Let_def uniform_checked scale_checked_Some allocate_checked)
  moreover have "sum_list (map winput MEMBERS) \<le> 0 \<longrightarrow>
            (\<forall>m \<in> set MEMBERS. get0 (weights st) m = 1 / of_nat (length MEMBERS))"
    unfolding st_def by (simp add: reimbursement_fields get0_normalize_weights)
  ultimately show ?thesis
    by (simp add: read_weights_eq)
qed

theorem divisions_guarded_witness:
  "compute_reimbursements_checked [''A'', ''B''] [spent_A, spent_B] 60 ''type'' {''asso''} no_weight
   = Some (compute_reimbursements [''A'', ''B''] [spent_A, spent_B] 60 ''type'' {''asso''} no_weight)
   \<and> get0 (weights (compute_reimbursements [''A'', ''B''] [spent_A, spent_B] 60 ''type'' {''asso''}
        no_weight)) ''A'' = 1 / 2"
  using divisions_guarded [where MEMBERS = "[''A'', ''B'']" and records = "[spent_A, spent_B]"
      and gran = "''type''" and selected = "{''asso''}" and SUM_GAIN = 60 and winput = no_weight]
  by (simp add: no_weight_def)

section \<open>Claims on the tables\<close>

text \<open>
  Claim C7. The categories of the main table come in three blocks: those whose
  lower-cased name is \<open>asso\<close>, then those whose lower-cased name is \<open>perso\<close>,
  then all the others in the order of \<open>localeCompare\<close>; they are the categories of the
  records, each once. Within a category the rows are in descending order of
  \<open>total\<close>, and the \<open>total\<close> of a row is the sum of the amounts of the records of
  its category and subcategory. \<open>localeCompare\<close> is assumed to be a consistent
  comparator (total and transitive), as ECMAScript requires of it.
\<close>

theorem main_table_order:
  fixes toLowerCase :: "string \<Rightarrow> string" and localeCompare :: "string \<Rightarrow> string \<Rightarrow> num"
    and records :: "expense list"
  assumes tot: "\<And>a b. localeCompare a b \<le> 0 \<or> localeCompare b a \<le> 0"
    and tr: "\<And>a b c. localeCompare a b \<le> 0 \<Longrightarrow> localeCompare b c \<le> 0
                \<Longrightarrow> localeCompare a c \<le> 0"
  defines "table \<equiv> build_main_table toLowerCase localeCompare records"
  shows "(\<exists>A P R. map fst table = A @ P @ R
            \<and> (\<forall>t \<in> set A. toLowerCase t = ''asso'')
            \<and> (\<forall>t \<in> set P. toLowerCase t = ''perso'')
            \<and> (\<forall>t \<in> set R. toLowerCase t \<noteq> ''asso'' \<and> toLowerCase t \<noteq> ''perso'')
            \<and> sorted_wrt (\<lambda>a b. localeCompare a b \<le> 0) R)
       \<and> set (map fst table) = spent_type ` set records
       \<and> distinct (map fst table)
       \<and> (\<forall>g \<in> set table.
            sorted_wrt (\<lambda>a b. total b \<le> total a) (snd g)
            \<and> (\<forall>c \<in> set (snd g).
                  total c = sum_list (map amount
                    (filter (\<lambda>r. spent_type r = fst g \<and> row_key r = rowKey c) records))))"
proof -
  let ?b = "fold add_to_table records []"
  let ?cmp = "compare_types toLowerCase localeCompare"
  let ?rows = "\<lambda>t. js_sort (\<lambda>a b. total b - total a)
                   (dict_values (case map_of ?b t of None \<Rightarrow> [] | Some d \<Rightarrow> d))"
  have table: "table = map (\<lambda>t. (t, ?rows t)) (js_sort ?cmp (map fst ?b))"
    by (simp add: table_def build_main_table_def Let_def)
  then have keys: "map fst table = js_sort ?cmp (map fst ?b)"
    by (simp add: comp_def)
  have order: "\<exists>A P R. map fst table = A @ P @ R
            \<and> (\<forall>t \<in> set A. toLowerCase t = ''asso'')
            \<and> (\<forall>t \<in> set P. toLowerCase t = ''perso'')
            \<and> (\<forall>t \<in> set R. toLowerCase t \<noteq> ''asso'' \<and> toLowerCase t \<noteq> ''perso'')
            \<and> sorted_wrt (\<lambda>a b. localeCompare a b \<le> 0) R"
    unfolding keys by (rule types_in_order [OF tot tr])
  have cats: "set (map fst table) = spent_type ` set records"
    using keys_fold_add_to_table(1) [of records "[]"] by (simp add: keys set_js_sort)
  have dist: "distinct (map fst table)"
    using keys_fold_add_to_table(2) [of "[]" records] by (simp add: keys distinct_js_sort)
  have rows: "sorted_wrt (\<lambda>a b. total b \<le> total a) (snd g)
            \<and> (\<forall>c \<in> set (snd g).
                  total c = sum_list (map amount
                    (filter (\<lambda>r. spent_type r = fst g \<and> row_key r = rowKey c) records)))"
    if g: "g \<in> set table" for g
  proof -
    from g obtain t where t: "t \<in> fst ` set ?b" and g_eq: "g = (t, ?rows t)"
      by (auto simp: table set_js_sort)
    from t obtain d where d: "map_of ?b t = Some d"
      by (cases "map_of ?b t") (auto simp: map_of_eq_None_iff)
    have "sorted_wrt (\<lambda>a b. total b \<le> total a) (snd g)"
      unfolding g_eq snd_conv by (rule rows_descending)
    moreover have "total c = sum_list (map amount
                    (filter (\<lambda>r. spent_type r = fst g \<and> row_key r = rowKey c) records))"
      if "c \<in> set (snd g)" for c
    proof -
      from that have "c \<in> set (dict_values d)"
        by (simp add: g_eq d set_js_sort)
      from table_row_total [OF d this] show ?thesis
        by (simp add: g_eq)
    qed
    ultimately show ?thesis by blast
  qed
  from order cats dist rows show ?thesis by blast
qed

theorem main_table_order_witness:
  "map (\<lambda>g. (fst g, map (\<lambda>c. (rowKey c, total c)) (snd g)))
     (build_main_table ascii_lower code_unit_compare ledger)
   = [(''Asso'', [(''corep'', 10)]),
      (''perso'', [(''vetement'', 100), (''instrument'', 85)]),
      (''cadeau'', [(''(no subtype)'', 12)]),
      (''don'', [(''divers'', 5)])]"
  using main_table_order [of code_unit_compare ascii_lower ledger,
      OF code_unit_compare_total code_unit_compare_trans]
  by (simp only: ledger_table)

text \<open>
  Claim C8 fails on the code. For the subtype \<open>divers\<close> and the name \<open>tombola\<close>
  with an \<open>asso\<close> record of 7, a \<open>perso\<close> record of 3 and a record of 5 in the
  category \<open>don\<close>, the row has total 15 and \<open>parts.asso = 7\<close>, but
  \<open>parts.perso = 8\<close>: the \<open>else\<close> branch adds the record of the third category to
  it, where the claim has 3.
\<close>

theorem detail_parts_other_category:
  "map (\<lambda>c. (name c, grand_total c, parts_asso c, parts_perso c))
     (show_subtype_detail tombola ''don'' ''divers'')
   = [(''tombola'', 15, 7, 8)]"
  by code_simp

section \<open>Further claims on the reimbursement computation\<close>

text \<open>
  Claim C9 (as amended). For every member \<open>m\<close> of \<open>MEMBERS\<close>,
  \<open>ante_totals_by_member[m]\<close> is the sum of the selected amounts of \<open>m\<close>;
  \<open>allocated_ante[m]\<close> is \<open>covered_ante * ante_totals_by_member[m] / s\<close> when the
  sum \<open>s\<close> of the values of \<open>ante_totals_by_member\<close> is positive, and 0
  otherwise; and \<open>final_after_post\<close> is
  \<open>remaining_gain * weights[m] - post_totals_by_member[m]\<close>, an expression
  in which \<open>allocated_ante\<close> does not occur.
\<close>

theorem allocated_ante_formula:
  fixes MEMBERS :: "string list" and records :: "expense list" and SUM_GAIN :: num
    and gran :: string and selected :: "string set" and winput :: "string \<Rightarrow> num"
  assumes "m \<in> set MEMBERS"
  defines "st \<equiv> compute_reimbursements MEMBERS records SUM_GAIN gran selected winput"
  defines "ante_member \<equiv> ante_totals_by_member (tallies st)"
  shows "get0 ante_member m = sum_list (map amount
             (filter (\<lambda>r. ante_key gran r \<in> selected \<and> member_id r = m) records))
       \<and> total_ante_contrib st = sum_list (dict_values ante_member)
       \<and> map_of (allocated_ante st) m =
             Some (if sum_list (dict_values ante_member) > 0
                   then covered_ante st * get0 ante_member m / sum_list (dict_values ante_member)
                   else 0)
       \<and> (\<exists>r. map_of (results st) m = Some r
              \<and> final_after_post r =
                  remaining_gain st * get0 (weights st) m
                  - get0 (post_totals_by_member (tallies st)) m)"
  using assms(1) unfolding st_def ante_member_def
  by (simp add: allocated_lookup results_lookup reimbursement_fields tally_records_fields)

theorem allocated_ante_formula_witness:
  "map_of (allocated_ante (compute_reimbursements [''A'', ''B''] [spent_A, spent_B] 40 ''type''
      {''asso''} half_each)) ''B'' = Some 40
   \<and> map_of (allocated_ante (compute_reimbursements [''A'', ''B''] [spent_A, spent_B] 40 ''type''
      {''asso''} half_each)) ''A'' = Some 0"
  using allocated_ante_formula [where m = "''B''" and MEMBERS = "[''A'', ''B'']"
      and records = "[spent_A, spent_B]" and gran = "''type''" and selected = "{''asso''}"
      and SUM_GAIN = 40 and winput = half_each]
  by (simp add: allocated_lookup reimbursement_fields tally_records_fields example_defs)

text \<open>
  Claim C9 as stated fails in its second part: \<open>allocated_ante\<close> stays a local
  variable. Two runs that differ only in the gain (10 and 20) give the same
  \<open>results\<close> and different \<open>allocated_ante\<close>, so \<open>results\<close> does not carry it.
\<close>

theorem allocated_ante_not_in_results:
  "results (compute_reimbursements [''B''] [spent_B] 10 ''type'' {''asso''} all_to_one)
   = results (compute_reimbursements [''B''] [spent_B] 20 ''type'' {''asso''} all_to_one)
   \<and> allocated_ante (compute_reimbursements [''B''] [spent_B] 10 ''type'' {''asso''} all_to_one)
     = [(''B'', 10)]
   \<and> allocated_ante (compute_reimbursements [''B''] [spent_B] 20 ''type'' {''asso''} all_to_one)
     = [(''B'', 20)]"
  by (simp add: compute_reimbursements_def Let_def assign_each_def tally_records_fields
      foldl_plus_sum_list example_defs all_to_one_def get0_dict_set)

text \<open>
  Claim C10 (as amended). When \<open>MEMBERS\<close> is not empty, the weights used sum to 1
  over \<open>MEMBERS\<close>, and the \<open>part_after_ante_split\<close> of the members sum to
  \<open>remaining_gain\<close>. (\<open>MEMBERS\<close> has no duplicates: \<open>compute_aggregates\<close>
  builds it from the distinct member names.)
\<close>

theorem weights_sum_to_one:
  fixes MEMBERS :: "string list" and records :: "expense list" and SUM_GAIN :: num
    and gran :: string and selected :: "string set" and winput :: "string \<Rightarrow> num"
  assumes "MEMBERS \<noteq> []"
  defines "st \<equiv> compute_reimbursements MEMBERS records SUM_GAIN gran selected winput"
  shows "sum_list (map (get0 (weights st)) MEMBERS) = 1
       \<and> sum_list (map (\<lambda>m. case map_of (results st) m of
                               None \<Rightarrow> 0 | Some r \<Rightarrow> part_after_ante_split r) MEMBERS)
         = remaining_gain st"
proof -
  let ?S = "sum_list (map winput MEMBERS)"
  let ?w = "normalize_weights MEMBERS winput"
  have n: "(of_nat (length MEMBERS) :: num) \<noteq> 0"
    using assms(1) by simp
  have "map (get0 ?w) MEMBERS
        = map (\<lambda>m. if ?S \<le> 0 then 1 / of_nat (length MEMBERS) else winput m / ?S) MEMBERS"
    by (rule map_cong) (simp_all add: get0_normalize_weights)
  then have "sum_list (map (get0 ?w) MEMBERS)
        = sum_list (map (\<lambda>m. if ?S \<le> 0 then 1 / of_nat (length MEMBERS)
                                else winput m / ?S) MEMBERS)"
    by (rule arg_cong)
  also have "\<dots> = 1"
  proof (cases "?S \<le> 0")
    case True
    then show ?thesis using n by (simp add: sum_list_triv)
  next
    case False
    have "sum_list (map (\<lambda>m. winput m / ?S) MEMBERS) = ?S / ?S"
      by (rule sum_list_scaled)
    then show ?thesis using False by simp
  qed
  finally have one: "sum_list (map (get0 ?w) MEMBERS) = 1" .
  have "map (\<lambda>m. case map_of (results st) m of
                    None \<Rightarrow> 0 | Some r \<Rightarrow> part_after_ante_split r) MEMBERS
        = map (\<lambda>m. remaining_gain st * get0 ?w m) MEMBERS"
    unfolding st_def by (rule map_cong) (simp_all add: results_lookup)
  then have "sum_list (map (\<lambda>m. case map_of (results st) m of
                    None \<Rightarrow> 0 | Some r \<Rightarrow> part_after_ante_split r) MEMBERS)
        = sum_list (map (\<lambda>m. remaining_gain st * get0 ?w m) MEMBERS)"
    by (rule arg_cong)
  then have "sum_list (map (\<lambda>m. case map_of (results st) m of
                    None \<Rightarrow> 0 | Some r \<Rightarrow> part_after_ante_split r) MEMBERS)
        = remaining_gain st * sum_list (map (get0 ?w) MEMBERS)"
    by (simp add: sum_list_const_mult)
  with one show ?thesis
    unfolding st_def by (simp add: reimbursement_fields)
qed

theorem weights_sum_to_one_witness:
  "sum_list (map (get0 (weights (compute_reimbursements [''A'', ''B''] [spent_A, spent_B] 60 ''type''
      {''asso''} half_each))) [''A'', ''B'']) = 1
   \<and> remaining_gain (compute_reimbursements [''A'', ''B''] [spent_A, spent_B] 60 ''type''
      {''asso''} half_each) = 10
   \<and> map_of (results (compute_reimbursements [''A'', ''B''] [spent_A, spent_B] 60 ''type''
      {''asso''} half_each)) ''A''
     = Some \<lparr>r_total_ante = 0, r_total_post = 100, r_total_ante_post = 100,
           part_after_ante_split = 5, final_after_post = - 95\<rparr>"
  using weights_sum_to_one [where MEMBERS = "[''A'', ''B'']" and records = "[spent_A, spent_B]"
      and gran = "''type''" and selected = "{''asso''}" and SUM_GAIN = 60 and winput = half_each]
  by (simp add: results_lookup reimbursement_fields tally_records_fields example_defs
      get0_normalize_weights)

text \<open>
  Claim C10 as stated fails when \<open>MEMBERS\<close> is empty (a ledger with no member
  name): there is no weight, the sum is 0, and nobody receives the remaining gain of 10.
\<close>

theorem no_members_no_weights:
  "sum_list (dict_values (weights (compute_reimbursements [] [] 10 ''type'' {''asso''} half_each))) = 0
   \<and> results (compute_reimbursements [] [] 10 ''type'' {''asso''} half_each) = []
   \<and> remaining_gain (compute_reimbursements [] [] 10 ''type'' {''asso''} half_each) = 10"
  by (simp add: compute_reimbursements_def Let_def assign_each_def tally_records_fields
      normalize_weights_def read_weights_def dict_values_def)

end
